theory Spec2Isabelle
  imports Complex_Main
begin

section \<open>JSON values as Python holds them\<close>

text \<open>
  Both scripts work on what \<^verbatim>\<open>json.loads\<close> returns. A Python \<^verbatim>\<open>str\<close> is a sequence of
  Unicode code points, so it is a list of naturals here; \<open>py\<close> turns an ASCII literal
  into one. A \<^verbatim>\<open>dict\<close> keeps insertion order, so it is an association list (looked up
  with \<open>map_of\<close>, written with \<open>dict_set\<close>). An \<^verbatim>\<open>int\<close> is unbounded; those that
  \<^verbatim>\<open>json.loads\<close> returns have at most 4300 digits, the default limit of conversion
  between \<^verbatim>\<open>int\<close> and \<^verbatim>\<open>str\<close>, so \<^verbatim>\<open>json.dumps\<close> prints each of them. A \<^verbatim>\<open>float\<close> is kept as
  its value (a rational, an infinity or NaN) together with the text
  \<^verbatim>\<open>float.__repr__\<close> prints for it: the shortest-round-trip printing algorithm is not
  re-derived, and every theorem below holds whatever that text is.
\<close>

type_synonym pystr = "nat list"

definition py :: "string \<Rightarrow> pystr" where
  "py s = map of_char s"

datatype pyfloat = FFinite rat | FInf bool | FNaN

datatype json =
    JNull
  | JBool bool
  | JInt int
  | JFloat pyfloat string
  | JStr pystr
  | JArr "json list"
  | JObj "(pystr \<times> json) list"

type_synonym pydict = "(pystr \<times> json) list"

text \<open>Python's truth value of an object, as \<^verbatim>\<open>if x:\<close> and \<^verbatim>\<open>not x\<close> test it.\<close>

fun truthy :: "json \<Rightarrow> bool" where
  "truthy JNull = False"
| "truthy (JBool b) = b"
| "truthy (JInt i) = (i \<noteq> 0)"
| "truthy (JFloat f r) = (f \<noteq> FFinite 0)"
| "truthy (JStr s) = (s \<noteq> [])"
| "truthy (JArr xs) = (xs \<noteq> [])"
| "truthy (JObj kvs) = (kvs \<noteq> [])"

text \<open>\<^verbatim>\<open>d[k] = v\<close>: an existing key keeps its position, a new key goes last.\<close>

fun dict_set :: "pydict \<Rightarrow> pystr \<Rightarrow> json \<Rightarrow> pydict" where
  "dict_set [] k v = [(k, v)]"
| "dict_set ((k', v') # d) k v = (if k' = k then (k, v) # d else (k', v') # dict_set d k v)"

section \<open>\<^verbatim>\<open>json.dumps\<close>\<close>

text \<open>
  \<^verbatim>\<open>json.dumps(obj)\<close> with its defaults: \<^verbatim>\<open>ensure_ascii=True\<close>, so the text is ASCII and
  \<^verbatim>\<open>.encode('utf-8')\<close> gives one byte per character. The two separators are arguments,
  as they are in Python: the default is \<^verbatim>\<open>(', ', ': ')\<close>.
\<close>

definition hex_digit :: "nat \<Rightarrow> char" where
  "hex_digit d = ''0123456789abcdef'' ! (d mod 16)"

definition hex4 :: "nat \<Rightarrow> string" where
  "hex4 n = (if n < 65536
     then map hex_digit [n div 4096, n div 256, n div 16, n]
     else [])"

text \<open>
  One character of \<^verbatim>\<open>py_encode_basestring_ascii\<close>: the short escapes of \<^verbatim>\<open>ESCAPE_DCT\<close>,
  printable ASCII as it is, \<^verbatim>\<open>\uXXXX\<close> for the rest of the basic plane and a surrogate
  pair above it.
\<close>

definition escape_char :: "nat \<Rightarrow> string" where
  "escape_char n =
    (if n = 92 then [CHR 0x5C, CHR 0x5C]
     else if n = 34 then [CHR 0x5C, CHR 0x22]
     else if n = 8 then [CHR 0x5C, CHR ''b'']
     else if n = 12 then [CHR 0x5C, CHR ''f'']
     else if n = 10 then [CHR 0x5C, CHR ''n'']
     else if n = 13 then [CHR 0x5C, CHR ''r'']
     else if n = 9 then [CHR 0x5C, CHR ''t'']
     else if 32 \<le> n \<and> n \<le> 126 then [char_of n]
     else if n < 65536 then [CHR 0x5C, CHR ''u''] @ hex4 n
     else (let m = n - 65536;
               s1 = 55296 + (m div 1024) mod 1024;
               s2 = 56320 + m mod 1024
           in [CHR 0x5C, CHR ''u''] @ hex4 s1 @ [CHR 0x5C, CHR ''u''] @ hex4 s2))"

definition encode_basestring_ascii :: "pystr \<Rightarrow> string" where
  "encode_basestring_ascii s = [CHR 0x22] @ concat (map escape_char s) @ [CHR 0x22]"

fun nat_digits :: "nat \<Rightarrow> string" where
  "nat_digits n =
    (if n < 10 then [''0123456789'' ! n]
     else nat_digits (n div 10) @ [''0123456789'' ! (n mod 10)])"

definition int_repr :: "int \<Rightarrow> string" where
  "int_repr i = (if i < 0 then CHR ''-'' # nat_digits (nat (- i)) else nat_digits (nat i))"

text \<open>\<^verbatim>\<open>sep.join(parts)\<close>\<close>

fun join :: "string \<Rightarrow> string list \<Rightarrow> string" where
  "join sep [] = []"
| "join sep [x] = x"
| "join sep (x # y # ys) = x @ sep @ join sep (y # ys)"

fun dumps :: "string \<Rightarrow> string \<Rightarrow> json \<Rightarrow> string" where
  "dumps isep ksep JNull = ''null''"
| "dumps isep ksep (JBool b) = (if b then ''true'' else ''false'')"
| "dumps isep ksep (JInt i) = int_repr i"
| "dumps isep ksep (JFloat f r) = r"
| "dumps isep ksep (JStr s) = encode_basestring_ascii s"
| "dumps isep ksep (JArr xs) = ''['' @ join isep (map (dumps isep ksep) xs) @ '']''"
| "dumps isep ksep (JObj kvs) =
     ''{'' @ join isep (map (\<lambda>(k, v). encode_basestring_ascii k @ ksep @ dumps isep ksep v) kvs)
       @ ''}''"

definition json_dumps :: "json \<Rightarrow> string" where
  "json_dumps = dumps '', '' '': ''"

definition json_dumps_compact :: "json \<Rightarrow> string" where
  "json_dumps_compact = dumps '','' '':''"

section \<open>\<^verbatim>\<open>bundle_requests.py\<close>\<close>

definition MAX_EVENTS_PER_BATCH :: nat where
  "MAX_EVENTS_PER_BATCH = 2000"

definition MAX_PAYLOAD_BYTES :: nat where
  "MAX_PAYLOAD_BYTES = 20 * 1024 * 1024"

definition SAFE_PAYLOAD_BYTES :: nat where
  "SAFE_PAYLOAD_BYTES = 19 * 1024 * 1024"

definition create_payload :: "pystr \<Rightarrow> json list \<Rightarrow> json" where
  "create_payload api_key events =
     JObj [(py ''api_key'', JStr api_key), (py ''events'', JArr events)]"

definition estimate_payload_size :: "pystr \<Rightarrow> json list \<Rightarrow> nat" where
  "estimate_payload_size api_key events = length (json_dumps (create_payload api_key events))"

text \<open>
  \<^verbatim>\<open>generate_curl_script\<close> builds the request body as \<^verbatim>\<open>payload_json\<close>, with the compact
  separators; its single quotes are escaped for the shell, which undoes the escaping
  before \<^verbatim>\<open>curl -d\<close> sends the text.
\<close>

definition payload_json :: "pystr \<Rightarrow> json list \<Rightarrow> string" where
  "payload_json api_key events = json_dumps_compact (create_payload api_key events)"

text \<open>
  The state of the loop of \<^verbatim>\<open>batch_events\<close> is the pair \<^verbatim>\<open>(batches, current_batch)\<close>.
  \<open>close_batch\<close> is \<^verbatim>\<open>if current_batch: batches.append(current_batch)\<close>.
\<close>

definition close_batch :: "json list list \<Rightarrow> json list \<Rightarrow> json list list" where
  "close_batch batches current_batch =
     (if current_batch \<noteq> [] then batches @ [current_batch] else batches)"

fun batch_loop ::
  "pystr \<Rightarrow> json list \<Rightarrow> json list list \<times> json list \<Rightarrow> json list list \<times> json list" where
  "batch_loop api_key [] (batches, current_batch) = (batches, current_batch)"
| "batch_loop api_key (event # events) (batches, current_batch) =
     (let test_batch = current_batch @ [event] in
      if length test_batch > MAX_EVENTS_PER_BATCH then
        batch_loop api_key events (close_batch batches current_batch, [event])
      else if estimate_payload_size api_key test_batch > SAFE_PAYLOAD_BYTES then
        batch_loop api_key events (close_batch batches current_batch, [event])
      else
        batch_loop api_key events (batches, test_batch))"

definition batch_events :: "json list \<Rightarrow> pystr \<Rightarrow> json list list" where
  "batch_events events api_key =
     (case batch_loop api_key events ([], []) of
        (batches, current_batch) \<Rightarrow> close_batch batches current_batch)"

section \<open>Python values and library calls used by \<^verbatim>\<open>convert_events.py\<close>\<close>

text \<open>
  A call either returns or raises: \<open>Inl\<close> carries the exception, \<open>Inr\<close> the value.
\<close>

datatype exn = ValueError | TypeError | OverflowError

type_synonym 'a result = "exn + 'a"

subsection \<open>Floating point\<close>

text \<open>
  \<^verbatim>\<open>dt.timestamp() * 1000\<close> is computed in IEEE binary64. A double is the rational it
  denotes, and each operation is the exact result rounded to 53 significant bits, ties
  to even. The exponent range is not bounded: the numbers met here lie between
  a millionth and \<open>10 ^ 15\<close> in magnitude, far from overflow and underflow.
\<close>

definition pow2 :: "int \<Rightarrow> rat" where
  "pow2 e = (if 0 \<le> e then 2 ^ nat e else 1 / 2 ^ nat (- e))"

fun bit_length :: "nat \<Rightarrow> nat" where
  "bit_length n = (if n = 0 then 0 else Suc (bit_length (n div 2)))"

text \<open>For \<open>x > 0\<close>, the exponent \<open>e\<close> with \<open>2 ^ e \<le> x < 2 ^ (e + 1)\<close>.\<close>

definition floor_log2 :: "rat \<Rightarrow> int" where
  "floor_log2 x =
     (if 1 \<le> x then int (bit_length (nat \<lfloor>x\<rfloor>)) - 1
      else (let k = int (bit_length (nat \<lfloor>1 / x\<rfloor>)) - 1
            in if pow2 k = 1 / x then - k else - k - 1))"

definition round_half_even :: "rat \<Rightarrow> int" where
  "round_half_even x =
     (let f = \<lfloor>x\<rfloor>; r = x - of_int f
      in if r < 1 / 2 then f else if 1 / 2 < r then f + 1 else if even f then f else f + 1)"

definition round_double :: "rat \<Rightarrow> rat" where
  "round_double x =
     (if x = 0 then 0
      else (let e = floor_log2 \<bar>x\<bar> - 52
            in of_int (round_half_even (x / pow2 e)) * pow2 e))"

definition float_add :: "rat \<Rightarrow> rat \<Rightarrow> rat" where
  "float_add x y = round_double (x + y)"

definition float_mul :: "rat \<Rightarrow> rat \<Rightarrow> rat" where
  "float_mul x y = round_double (x * y)"

definition float_div :: "rat \<Rightarrow> rat \<Rightarrow> rat" where
  "float_div x y = round_double (x / y)"

text \<open>\<^verbatim>\<open>int(x)\<close> of a finite float drops the fraction, towards zero.\<close>

definition trunc :: "rat \<Rightarrow> int" where
  "trunc x = (if 0 \<le> x then \<lfloor>x\<rfloor> else \<lceil>x\<rceil>)"

subsection \<open>\<^verbatim>\<open>datetime\<close> and \<^verbatim>\<open>datetime.timestamp()\<close>\<close>

record datetime =
  year :: nat
  month :: nat
  day :: nat
  hour :: nat
  minute :: nat
  second :: nat
  microsecond :: nat

definition is_leap :: "nat \<Rightarrow> bool" where
  "is_leap y = (y mod 4 = 0 \<and> (y mod 100 \<noteq> 0 \<or> y mod 400 = 0))"

definition days_in_month :: "nat \<Rightarrow> nat \<Rightarrow> nat" where
  "days_in_month y m =
     (if m = 2 \<and> is_leap y then 29
      else [0, 31, 28, 31, 30, 31, 30, 31, 31, 30, 31, 30, 31] ! m)"

definition days_before_year :: "nat \<Rightarrow> nat" where
  "days_before_year y = (y - 1) * 365 + (y - 1) div 4 - (y - 1) div 100 + (y - 1) div 400"

definition days_before_month :: "nat \<Rightarrow> nat \<Rightarrow> nat" where
  "days_before_month y m =
     [0, 0, 31, 59, 90, 120, 151, 181, 212, 243, 273, 304, 334] ! m
       + (if m > 2 \<and> is_leap y then 1 else 0)"

definition ymd_to_ord :: "nat \<Rightarrow> nat \<Rightarrow> nat \<Rightarrow> nat" where
  "ymd_to_ord y m d = days_before_year y + days_before_month y m + d"

text \<open>
  \<^verbatim>\<open>utc_to_seconds\<close> of the fields of a valid \<^verbatim>\<open>datetime\<close>: seconds counted from the
  day before 0001-01-01, the scale on which \<^verbatim>\<open>datetime\<close> computes.
\<close>

definition seconds_of :: "datetime \<Rightarrow> int" where
  "seconds_of dt =
     ((int (ymd_to_ord (year dt) (month dt) (day dt)) * 24 + int (hour dt)) * 60
        + int (minute dt)) * 60 + int (second dt)"

definition epoch :: int where
  "epoch = 719163 * 24 * 60 * 60"

definition max_fold_seconds :: int where
  "max_fold_seconds = 24 * 3600"

text \<open>
  The \<^verbatim>\<open>datetime\<close> that \<^verbatim>\<open>strptime\<close> returns is naive, and \<^verbatim>\<open>timestamp()\<close> of a naive
  \<^verbatim>\<open>datetime\<close> reads it as local time of the process. The time zone of the process is
  an input of the script: a \<open>tz\<close> gives, for a POSIX time, the offset of local time from
  UTC in seconds, which is what the C library's \<^verbatim>\<open>localtime\<close> applies.
\<close>

type_synonym tz = "int \<Rightarrow> int"

definition utc :: tz where
  "utc = (\<lambda>t. 0)"

definition fixed_offset :: "int \<Rightarrow> tz" where
  "fixed_offset seconds = (\<lambda>t. seconds)"

text \<open>
  \<^verbatim>\<open>local(u)\<close>: the local wall clock at the instant \<open>u\<close>, on the scale of \<open>seconds_of\<close>.
  It raises \<^verbatim>\<open>ValueError\<close> when the local year leaves \<^verbatim>\<open>MINYEAR..MAXYEAR\<close>, that is
  when the wall clock is before 0001-01-01 (day 1) or after 9999-12-31 (day 3652059).
\<close>

definition local_time :: "tz \<Rightarrow> int \<Rightarrow> int result" where
  "local_time zone u =
     (let lt = u + zone (u - epoch)
      in if 1 * 86400 \<le> lt \<and> lt < 3652060 * 86400 then Inr lt else Inl ValueError)"

text \<open>
  \<^verbatim>\<open>local_to_seconds\<close> with \<^verbatim>\<open>fold = 0\<close> solves \<open>t = local(u)\<close> for \<open>u\<close>, trying the offset
  found at \<open>t\<close> and the one found a day earlier.
\<close>

definition local_to_seconds :: "tz \<Rightarrow> datetime \<Rightarrow> int result" where
  "local_to_seconds zone dt =
     (let t = seconds_of dt in
      (case local_time zone t of
         Inl e \<Rightarrow> Inl e
       | Inr lt \<Rightarrow>
           (let a = lt - t; u1 = t - a in
            (case local_time zone u1 of
               Inl e \<Rightarrow> Inl e
             | Inr t1 \<Rightarrow>
                 (let second_offset = (\<lambda>b.
                        (let u2 = t - b in
                         (case local_time zone u2 of
                            Inl e \<Rightarrow> Inl e
                          | Inr t2 \<Rightarrow>
                              if t2 = t then Inr u2 else if t1 = t then Inr u1
                              else Inr (max u1 u2))))
                  in if t1 = t then
                       (case local_time zone (u1 - max_fold_seconds) of
                          Inl e \<Rightarrow> Inl e
                        | Inr lt' \<Rightarrow>
                            (let b = lt' - (u1 - max_fold_seconds) in
                             if a = b then Inr u1 else second_offset b))
                     else second_offset (t1 - u1))))))"

text \<open>\<^verbatim>\<open>seconds - EPOCH_SECONDS + microsecond / 1e6\<close>, in doubles.\<close>

definition datetime_timestamp :: "tz \<Rightarrow> datetime \<Rightarrow> rat result" where
  "datetime_timestamp zone dt =
     (case local_to_seconds zone dt of
        Inl e \<Rightarrow> Inl e
      | Inr seconds \<Rightarrow>
          Inr (float_add (of_int (seconds - epoch))
                 (float_div (of_nat (microsecond dt)) 1000000)))"

subsection \<open>\<^verbatim>\<open>datetime.strptime\<close>\<close>

text \<open>
  \<^verbatim>\<open>strptime\<close> turns the format into a regular expression, one group for each directive,
  and matches it at the start of the string with Python's backtracking matcher. A
  matcher is modelled by the list of its matches, best first, each with the rest of
  the string. The groups are those of \<^verbatim>\<open>_strptime.TimeRE\<close>:
  \<^verbatim>\<open>%Y  \d\d\d\d                                %m  1[0-2]|0[1-9]|[1-9]\<close>
  \<^verbatim>\<open>%d  3[0-1]|[1-2]\d|0[1-9]|[1-9]| [1-9]       %H  2[0-3]|[0-1]\d|\d\<close>
  \<^verbatim>\<open>%M  [0-5]\d|\d                              %S  6[0-1]|[0-5]\d|\d\<close>
  \<^verbatim>\<open>%f  [0-9]{1,6}\<close>
  and a blank of the format is \<^verbatim>\<open>\s+\<close>. The pattern is a \<^verbatim>\<open>str\<close>, so \<^verbatim>\<open>\s\<close> is any Unicode
  blank and \<^verbatim>\<open>\d\<close> any Unicode decimal digit, while a class such as \<^verbatim>\<open>[0-5]\<close> takes ASCII
  digits only.
\<close>

definition is_space :: "nat \<Rightarrow> bool" where
  "is_space c = (9 \<le> c \<and> c \<le> 13 \<or> 28 \<le> c \<and> c \<le> 32 \<or> c = 133 \<or> c = 160
     \<or> c = 5760 \<or> 8192 \<le> c \<and> c \<le> 8202 \<or> c = 8232 \<or> c = 8233 \<or> c = 8239
     \<or> c = 8287 \<or> c = 12288)"

text \<open>
  The decimal digits of Unicode come in runs of ten, zero first. \<open>decimal_zeros\<close> lists
  the zeros of Unicode 14.0, the character database of CPython 3.11; \<open>decimal_value\<close>
  is the digit a character stands for, which is also what \<^verbatim>\<open>int\<close> reads it as.
\<close>

definition decimal_zeros :: "nat list" where
  "decimal_zeros =
     [48, 1632, 1776, 1984, 2406, 2534, 2662, 2790, 2918, 3046, 3174, 3302, 3430, 3558, 3664,
      3792, 3872, 4160, 4240, 6112, 6160, 6470, 6608, 6784, 6800, 6992, 7088, 7232, 7248,
      42528, 43216, 43264, 43472, 43504, 43600, 44016, 65296, 66720, 68912, 69734, 69872,
      69942, 70096, 70384, 70736, 70864, 71248, 71360, 71472, 71904, 72016, 72784, 73040,
      73120, 92768, 92864, 93008, 120782, 120792, 120802, 120812, 120822, 123200, 123632,
      125264, 130032]"

definition decimal_value :: "nat \<Rightarrow> nat option" where
  "decimal_value c =
     (case List.find (\<lambda>z. z \<le> c \<and> c < z + 10) decimal_zeros of
        None \<Rightarrow> None
      | Some z \<Rightarrow> Some (c - z))"

text \<open>
  The two kinds of one-character pattern in the groups: an ASCII class \<^verbatim>\<open>[lo-hi]\<close> (a
  single digit being the class from it to itself) and \<^verbatim>\<open>\d\<close>. \<open>class_value\<close> is the digit
  matched, if the character matches.
\<close>

datatype char_class = Ascii nat nat | Decimal

fun class_value :: "char_class \<Rightarrow> nat \<Rightarrow> nat option" where
  "class_value (Ascii lo hi) c = (if 48 + lo \<le> c \<and> c \<le> 48 + hi then Some (c - 48) else None)"
| "class_value Decimal c = decimal_value c"

type_synonym 'a matches = "('a \<times> pystr) list"

fun one_digit :: "char_class \<Rightarrow> pystr \<Rightarrow> nat matches" where
  "one_digit cls (c # s) = (case class_value cls c of None \<Rightarrow> [] | Some d \<Rightarrow> [(d, s)])"
| "one_digit cls [] = []"

fun two_digits :: "char_class \<Rightarrow> char_class \<Rightarrow> pystr \<Rightarrow> nat matches" where
  "two_digits cls cls' (c # c' # s) =
     (case class_value cls c of
        None \<Rightarrow> []
      | Some d \<Rightarrow> (case class_value cls' c' of None \<Rightarrow> [] | Some d' \<Rightarrow> [(10 * d + d', s)]))"
| "two_digits cls cls' s = []"

fun literal :: "nat \<Rightarrow> pystr \<Rightarrow> unit matches" where
  "literal l (c # s) = (if c = l then [((), s)] else [])"
| "literal l [] = []"

definition re_Y :: "pystr \<Rightarrow> nat matches" where
  "re_Y s =
     [(100 * a + b, s2). (a, s1) \<leftarrow> two_digits Decimal Decimal s,
                        (b, s2) \<leftarrow> two_digits Decimal Decimal s1]"

definition re_m :: "pystr \<Rightarrow> nat matches" where
  "re_m s =
     two_digits (Ascii 1 1) (Ascii 0 2) s @ two_digits (Ascii 0 0) (Ascii 1 9) s
       @ one_digit (Ascii 1 9) s"

definition re_d :: "pystr \<Rightarrow> nat matches" where
  "re_d s =
     two_digits (Ascii 3 3) (Ascii 0 1) s @ two_digits (Ascii 1 2) Decimal s
       @ two_digits (Ascii 0 0) (Ascii 1 9) s @ one_digit (Ascii 1 9) s
       @ [(d, s2). (u, s1) \<leftarrow> literal 32 s, (d, s2) \<leftarrow> one_digit (Ascii 1 9) s1]"

definition re_H :: "pystr \<Rightarrow> nat matches" where
  "re_H s =
     two_digits (Ascii 2 2) (Ascii 0 3) s @ two_digits (Ascii 0 1) Decimal s @ one_digit Decimal s"

definition re_M :: "pystr \<Rightarrow> nat matches" where
  "re_M s = two_digits (Ascii 0 5) Decimal s @ one_digit Decimal s"

definition re_S :: "pystr \<Rightarrow> nat matches" where
  "re_S s =
     two_digits (Ascii 6 6) (Ascii 0 1) s @ two_digits (Ascii 0 5) Decimal s @ one_digit Decimal s"

text \<open>\<^verbatim>\<open>\s+\<close> is greedy: the longest run of blanks first.\<close>

fun re_spaces :: "pystr \<Rightarrow> unit matches" where
  "re_spaces (c # s) = (if is_space c then re_spaces s @ [((), s)] else [])"
| "re_spaces [] = []"

text \<open>
  \<^verbatim>\<open>[0-9]{1,6}\<close>, greedy, with the value \<^verbatim>\<open>strptime\<close> gives the group: the digits padded
  with zeros on the right to six places, as a number of microseconds.
\<close>

fun digits_upto :: "nat \<Rightarrow> nat \<Rightarrow> pystr \<Rightarrow> nat matches" where
  "digits_upto n acc [] = []"
| "digits_upto n acc (c # s) =
     (if 0 < n \<and> class_value (Ascii 0 9) c \<noteq> None
      then digits_upto (n - 1) (10 * acc + (c - 48)) s
             @ [((10 * acc + (c - 48)) * 10 ^ (n - 1), s)]
      else [])"

definition re_f :: "pystr \<Rightarrow> nat matches" where
  "re_f s = digits_upto 6 0 s"

text \<open>The format \<^verbatim>\<open>"%Y-%m-%d %H:%M:%S"\<close>.\<close>

definition re_date_time :: "pystr \<Rightarrow> datetime matches" where
  "re_date_time s =
     [(\<lparr>year = Y, month = m, day = d, hour = H, minute = M, second = S, microsecond = 0\<rparr>, s11).
        (Y, s1) \<leftarrow> re_Y s, (u, s2) \<leftarrow> literal 45 s1,
        (m, s3) \<leftarrow> re_m s2, (u, s4) \<leftarrow> literal 45 s3,
        (d, s5) \<leftarrow> re_d s4, (u, s6) \<leftarrow> re_spaces s5,
        (H, s7) \<leftarrow> re_H s6, (u, s8) \<leftarrow> literal 58 s7,
        (M, s9) \<leftarrow> re_M s8, (u, s10) \<leftarrow> literal 58 s9,
        (S, s11) \<leftarrow> re_S s10]"

text \<open>The format \<^verbatim>\<open>"%Y-%m-%d %H:%M:%S.%f"\<close>.\<close>

definition re_date_time_f :: "pystr \<Rightarrow> datetime matches" where
  "re_date_time_f s =
     [(dt\<lparr>microsecond := f\<rparr>, s3).
        (dt, s1) \<leftarrow> re_date_time s, (u, s2) \<leftarrow> literal 46 s1, (f, s3) \<leftarrow> re_f s2]"

text \<open>
  What \<^verbatim>\<open>strptime\<close> does with the matches: no match is a \<^verbatim>\<open>ValueError\<close>; so is text left
  after the best match, a year 0, a day the month does not have, and a second above
  59, which the \<^verbatim>\<open>datetime\<close> constructor refuses.
\<close>

definition strptime_of :: "datetime matches \<Rightarrow> datetime result" where
  "strptime_of found =
     (case found of
        [] \<Rightarrow> Inl ValueError
      | (dt, unconverted) # others \<Rightarrow>
          if unconverted \<noteq> [] then Inl ValueError
          else if year dt < 1 \<or> days_in_month (year dt) (month dt) < day dt then Inl ValueError
          else if 59 < second dt then Inl ValueError
          else Inr dt)"

definition strptime :: "bool \<Rightarrow> pystr \<Rightarrow> datetime result" where
  "strptime with_fraction data_string =
     strptime_of
       (if with_fraction then re_date_time_f data_string else re_date_time data_string)"

subsection \<open>\<^verbatim>\<open>int(x)\<close>\<close>

text \<open>
  \<^verbatim>\<open>int\<close> of a string: blanks stripped at both ends, an optional sign, then decimal
  digits of any script, where single underscores may stand between digits. The blanks
  it strips are those of \<^verbatim>\<open>\s\<close> without the four separators U+001C to U+001F, and more
  than 4300 digits are refused, the default of \<^verbatim>\<open>sys.get_int_max_str_digits()\<close>.
\<close>

definition is_int_space :: "nat \<Rightarrow> bool" where
  "is_int_space c = (is_space c \<and> (c < 28 \<or> 31 < c))"

definition int_of_str :: "pystr \<Rightarrow> int result" where
  "int_of_str s =
     (let t = rev (dropWhile is_int_space (rev (dropWhile is_int_space s)));
          negative = (t \<noteq> [] \<and> hd t = 45);
          body = (if t \<noteq> [] \<and> (hd t = 45 \<or> hd t = 43) then tl t else t);
          digits = List.map_filter decimal_value body;
          well_formed = (body \<noteq> []
            \<and> decimal_value (hd body) \<noteq> None \<and> decimal_value (last body) \<noteq> None
            \<and> list_all (\<lambda>c. decimal_value c \<noteq> None \<or> c = 95) body
            \<and> list_all (\<lambda>(c, c'). c \<noteq> 95 \<or> c' \<noteq> 95) (zip body (tl body))
            \<and> length digits \<le> 4300);
          n = foldl (\<lambda>acc d. 10 * acc + int d) 0 digits
      in if well_formed then Inr (if negative then - n else n) else Inl ValueError)"

fun py_int :: "json \<Rightarrow> int result" where
  "py_int (JInt i) = Inr i"
| "py_int (JBool b) = Inr (if b then 1 else 0)"
| "py_int (JFloat (FFinite q) r) = Inr (trunc q)"
| "py_int (JFloat (FInf negative) r) = Inl OverflowError"
| "py_int (JFloat FNaN r) = Inl ValueError"
| "py_int (JStr s) = int_of_str s"
| "py_int JNull = Inl TypeError"
| "py_int (JArr xs) = Inl TypeError"
| "py_int (JObj kvs) = Inl TypeError"

section \<open>\<^verbatim>\<open>convert_events.py\<close>\<close>

text \<open>
  The body of the \<^verbatim>\<open>try\<close> in \<^verbatim>\<open>parse_timestamp\<close>, for one field value. A string goes to
  \<^verbatim>\<open>strptime\<close>, with the \<^verbatim>\<open>%f\<close> format when it has a dot (code point 46). Any other value
  raises \<^verbatim>\<open>TypeError\<close>: at \<^verbatim>\<open>"." in ts_str\<close> when it is a number or \<^verbatim>\<open>True\<close>, at
  \<^verbatim>\<open>strptime\<close> when it is a list or a dict.
\<close>

fun parse_field :: "tz \<Rightarrow> json \<Rightarrow> int result" where
  "parse_field zone (JStr ts_str) =
     (case strptime (46 \<in> set ts_str) ts_str of
        Inl e \<Rightarrow> Inl e
      | Inr dt \<Rightarrow>
          (case datetime_timestamp zone dt of
             Inl e \<Rightarrow> Inl e
           | Inr seconds \<Rightarrow> Inr (trunc (float_mul seconds 1000))))"
| "parse_field zone other = Inl TypeError"

text \<open>
  The \<^verbatim>\<open>for\<close> loop: \<open>None\<close> when it runs to its end, \<open>Some\<close> when it leaves the function by
  \<^verbatim>\<open>return\<close> or by an exception the \<^verbatim>\<open>except\<close> clause does not catch.
\<close>

fun timestamp_loop :: "tz \<Rightarrow> pydict \<Rightarrow> pystr list \<Rightarrow> int result option" where
  "timestamp_loop zone event [] = None"
| "timestamp_loop zone event (field # others) =
     (case map_of event field of
        None \<Rightarrow> timestamp_loop zone event others
      | Some v \<Rightarrow>
          if truthy v then
            (case parse_field zone v of
               Inr ms \<Rightarrow> Some (Inr ms)
             | Inl ValueError \<Rightarrow> timestamp_loop zone event others
             | Inl TypeError \<Rightarrow> timestamp_loop zone event others
             | Inl e \<Rightarrow> Some (Inl e))
          else timestamp_loop zone event others)"

definition timestamp_fields :: "pystr list" where
  "timestamp_fields = [py ''event_time'', py ''client_event_time'', py ''server_received_time'']"

definition parse_timestamp :: "tz \<Rightarrow> pydict \<Rightarrow> int option result" where
  "parse_timestamp zone event =
     (case timestamp_loop zone event timestamp_fields of
        Some (Inr ms) \<Rightarrow> Inr (Some ms)
      | Some (Inl e) \<Rightarrow> Inl e
      | None \<Rightarrow>
          (case map_of event (py ''time'') of
             None \<Rightarrow> Inr None
           | Some v \<Rightarrow>
               if truthy v then (case py_int v of Inl e \<Rightarrow> Inl e | Inr i \<Rightarrow> Inr (Some i))
               else Inr None))"

definition FIELD_MAPPING :: "(pystr \<times> pystr) list" where
  "FIELD_MAPPING =
    [(py ''user_id'', py ''user_id''),
     (py ''device_id'', py ''device_id''),
     (py ''event_type'', py ''event_type''),
     (py ''event_properties'', py ''event_properties''),
     (py ''user_properties'', py ''user_properties''),
     (py ''group_properties'', py ''group_properties''),
     (py ''groups'', py ''groups''),
     (py ''session_id'', py ''session_id''),
     (py ''event_id'', py ''event_id''),
     (py ''insert_id'', py ''insert_id''),
     (py ''platform'', py ''platform''),
     (py ''os_name'', py ''os_name''),
     (py ''os_version'', py ''os_version''),
     (py ''device_brand'', py ''device_brand''),
     (py ''device_manufacturer'', py ''device_manufacturer''),
     (py ''device_model'', py ''device_model''),
     (py ''device_type'', py ''device_type''),
     (py ''carrier'', py ''carrier''),
     (py ''country'', py ''country''),
     (py ''region'', py ''region''),
     (py ''city'', py ''city''),
     (py ''dma'', py ''dma''),
     (py ''location_lat'', py ''location_lat''),
     (py ''location_lng'', py ''location_lng''),
     (py ''language'', py ''language''),
     (py ''ip_address'', py ''ip_address''),
     (py ''library'', py ''library''),
     (py ''app_version'', py ''app_version''),
     (py ''price'', py ''price''),
     (py ''quantity'', py ''quantity''),
     (py ''revenue'', py ''revenue''),
     (py ''productId'', py ''productId''),
     (py ''revenueType'', py ''revenueType''),
     (py ''idfa'', py ''idfa''),
     (py ''idfv'', py ''idfv''),
     (py ''adid'', py ''adid''),
     (py ''android_id'', py ''android_id'')]"

text \<open>
  The loop over \<^verbatim>\<open>FIELD_MAPPING.items()\<close>. The raw event comes from \<^verbatim>\<open>json.loads\<close>, so its
  keys are distinct and \<open>map_of\<close> reads it as Python does.
\<close>

fun copy_fields :: "pydict \<Rightarrow> (pystr \<times> pystr) list \<Rightarrow> pydict \<Rightarrow> pydict" where
  "copy_fields export_event [] upload_event = upload_event"
| "copy_fields export_event ((export_field, upload_field) # items) upload_event =
     (case map_of export_event export_field of
        None \<Rightarrow> copy_fields export_event items upload_event
      | Some v \<Rightarrow>
          if v = JNull then copy_fields export_event items upload_event
          else if v = JStr [] \<or> v = JObj [] then copy_fields export_event items upload_event
          else copy_fields export_event items (dict_set upload_event upload_field v))"

text \<open>\<^verbatim>\<open>d.get(k)\<close>, with \<^verbatim>\<open>None\<close> for a missing key.\<close>

definition dict_get :: "pydict \<Rightarrow> pystr \<Rightarrow> json" where
  "dict_get d k = (case map_of d k of None \<Rightarrow> JNull | Some v \<Rightarrow> v)"

definition convert_event :: "tz \<Rightarrow> pydict \<Rightarrow> pydict option result" where
  "convert_event zone export_event =
     (let upload_event = copy_fields export_event FIELD_MAPPING [] in
      case parse_timestamp zone export_event of
        Inl e \<Rightarrow> Inl e
      | Inr timestamp \<Rightarrow>
          (let upload_event =
                 (case timestamp of
                    None \<Rightarrow> upload_event
                  | Some t \<Rightarrow>
                      if t \<noteq> 0 then dict_set upload_event (py ''time'') (JInt t)
                      else upload_event);
               has_user_id = dict_get upload_event (py ''user_id'');
               has_device_id = dict_get upload_event (py ''device_id'');
               has_event_type = dict_get upload_event (py ''event_type'')
           in if \<not> (truthy has_user_id \<or> truthy has_device_id) then Inr None
              else if \<not> truthy has_event_type then Inr None
              else Inr (Some upload_event)))"

section \<open>The specification's notions\<close>

text \<open>
  The specification speaks of a field that is ``present/non-empty''. Its field copy
  names what counts as absent: a missing key, null, the empty string and the empty
  object. \<open>present_nonempty\<close> is the specification's reading, \<open>has_truthy\<close> is the test
  the code makes: Python's truth value of \<^verbatim>\<open>d.get(k)\<close>.
\<close>

definition present_nonempty :: "pydict \<Rightarrow> pystr \<Rightarrow> bool" where
  "present_nonempty d k =
     (case map_of d k of
        None \<Rightarrow> False
      | Some v \<Rightarrow> v \<noteq> JNull \<and> v \<noteq> JStr [] \<and> v \<noteq> JObj [])"

definition rejected_as_specified :: "pydict \<Rightarrow> bool" where
  "rejected_as_specified d =
     (\<not> present_nonempty d (py ''event_type'')
      \<or> (\<not> present_nonempty d (py ''user_id'') \<and> \<not> present_nonempty d (py ''device_id'')))"

definition has_truthy :: "pydict \<Rightarrow> pystr \<Rightarrow> bool" where
  "has_truthy d k = truthy (dict_get d k)"

text \<open>
  Timestamp resolution in the specification's words: each of the three fields is parsed
  and turned into epoch milliseconds, the first one that parses wins, and otherwise a
  numeric \<^verbatim>\<open>time\<close> field is the answer whenever it is present.
\<close>

definition parsed_millis :: "tz \<Rightarrow> pydict \<Rightarrow> pystr \<Rightarrow> int option" where
  "parsed_millis zone event field =
     (case map_of event field of
        None \<Rightarrow> None
      | Some v \<Rightarrow> (case parse_field zone v of Inl e \<Rightarrow> None | Inr ms \<Rightarrow> Some ms))"

definition first_parsed :: "tz \<Rightarrow> pydict \<Rightarrow> int option" where
  "first_parsed zone event =
     (case List.map_filter (parsed_millis zone event) timestamp_fields of
        [] \<Rightarrow> None
      | ms # others \<Rightarrow> Some ms)"

fun is_number :: "json \<Rightarrow> bool" where
  "is_number (JInt i) = True"
| "is_number (JFloat f r) = True"
| "is_number other = False"

definition resolve_as_specified :: "tz \<Rightarrow> pydict \<Rightarrow> int option result" where
  "resolve_as_specified zone event =
     (case first_parsed zone event of
        Some ms \<Rightarrow> Inr (Some ms)
      | None \<Rightarrow>
          (case map_of event (py ''time'') of
             None \<Rightarrow> Inr None
           | Some v \<Rightarrow>
               if is_number v then (case py_int v of Inl e \<Rightarrow> Inl e | Inr i \<Rightarrow> Inr (Some i))
               else Inr None))"

section \<open>Example data\<close>

text \<open>An event whose \<^verbatim>\<open>event_type\<close> alone is 19 MiB of text.\<close>

definition oversize_event :: json where
  "oversize_event = JObj [(py ''event_type'', JStr (replicate 19922944 97))]"

text \<open>Example 1 of the specification, input and expected output.\<close>

definition example1_raw :: pydict where
  "example1_raw =
     [(py ''event_time'', JStr (py ''2024-01-15 10:30:45.123456'')),
      (py ''user_id'', JStr (py ''u1'')),
      (py ''event_type'', JStr (py ''login''))]"

definition example1_normalized :: pydict where
  "example1_normalized =
     [(py ''user_id'', JStr (py ''u1'')),
      (py ''event_type'', JStr (py ''login'')),
      (py ''time'', JInt 1705314645123)]"

definition example1_datetime :: datetime where
  "example1_datetime =
     \<lparr>year = 2024, month = 1, day = 15, hour = 10, minute = 30, second = 45,
      microsecond = 123456\<rparr>"

text \<open>The same event one hour east of Greenwich: the expected time less 3600000.\<close>

definition example1_one_hour_east :: pydict where
  "example1_one_hour_east =
     [(py ''user_id'', JStr (py ''u1'')),
      (py ''event_type'', JStr (py ''login'')),
      (py ''time'', JInt 1705311045123)]"

text \<open>An accepted event with an empty array, a zero and an empty string.\<close>

definition sparse_raw :: pydict where
  "sparse_raw =
     [(py ''user_id'', JStr (py ''u1'')),
      (py ''event_type'', JStr (py ''login'')),
      (py ''groups'', JArr []),
      (py ''price'', JInt 0),
      (py ''city'', JStr [])]"

definition sparse_normalized :: pydict where
  "sparse_normalized =
     [(py ''user_id'', JStr (py ''u1'')),
      (py ''event_type'', JStr (py ''login'')),
      (py ''groups'', JArr []),
      (py ''price'', JInt 0)]"

text \<open>An event whose \<^verbatim>\<open>user_id\<close> is the number 0, and one whose \<^verbatim>\<open>time\<close> is no number.\<close>

definition zero_user_raw :: pydict where
  "zero_user_raw = [(py ''user_id'', JInt 0), (py ''event_type'', JStr (py ''login''))]"

definition text_time_raw :: pydict where
  "text_time_raw = [(py ''time'', JStr (py ''abc''))]"

text \<open>Events for timestamp resolution.\<close>

definition second_field_raw :: pydict where
  "second_field_raw =
     [(py ''event_time'', JStr (py ''not a date'')),
      (py ''client_event_time'', JStr (py ''2024-01-15 10:30:45''))]"

definition second_field_datetime :: datetime where
  "second_field_datetime =
     \<lparr>year = 2024, month = 1, day = 15, hour = 10, minute = 30, second = 45,
      microsecond = 0\<rparr>"

definition numeric_time_raw :: pydict where
  "numeric_time_raw = [(py ''time'', JInt 1705314645123)]"

definition zero_time_raw :: pydict where
  "zero_time_raw = [(py ''time'', JInt 0)]"

section \<open>Lengths of serializations\<close>

lemma length_join:
  "length (join sep xs) = sum_list (map length xs) + (length xs - 1) * length sep"
  by (induction sep xs rule: join.induct) simp_all

lemma length_join_mono:
  assumes "list_all2 (\<lambda>x y. length x \<le> length y) xs ys" and "length sep \<le> length sep'"
  shows "length (join sep xs) \<le> length (join sep' ys)"
proof -
  from assms(1) have len: "length xs = length ys"
    by (rule list_all2_lengthD)
  from assms(1) have "sum_list (map length xs) \<le> sum_list (map length ys)"
    by (induction rule: list_all2_induct) auto
  moreover have "(length xs - 1) * length sep \<le> (length ys - 1) * length sep'"
    using len assms(2) by (simp add: mult_le_mono2)
  ultimately show ?thesis
    by (simp add: length_join add_mono)
qed

lemma length_join_member:
  "x \<in> set xs \<Longrightarrow> length x \<le> length (join sep xs)"
  by (simp add: length_join member_le_sum_list trans_le_add1)

lemma dumps_compact_le:
  "length (dumps '','' '':'' v) \<le> length (dumps '', '' '': '' v)"
proof (induction v)
  case (JArr xs)
  have "list_all2 (\<lambda>x y. length x \<le> length y)
          (map (dumps '','' '':'') xs) (map (dumps '', '' '': '') xs)"
    using JArr by (simp add: list_all2_map1 list_all2_map2 list_all2_same)
  then have "length (join '','' (map (dumps '','' '':'') xs))
             \<le> length (join '', '' (map (dumps '', '' '': '') xs))"
    by (rule length_join_mono) simp
  then show ?case by simp
next
  case (JObj kvs)
  have "list_all2 (\<lambda>x y. length x \<le> length y)
          (map (\<lambda>(k, v). encode_basestring_ascii k @ '':'' @ dumps '','' '':'' v) kvs)
          (map (\<lambda>(k, v). encode_basestring_ascii k @ '': '' @ dumps '', '' '': '' v) kvs)"
    using JObj by (fastforce simp: list_all2_map1 list_all2_map2 list_all2_same)
  then have "length (join '',''
               (map (\<lambda>(k, v). encode_basestring_ascii k @ '':'' @ dumps '','' '':'' v) kvs))
             \<le> length (join '', ''
               (map (\<lambda>(k, v). encode_basestring_ascii k @ '': '' @ dumps '', '' '': '' v) kvs))"
    by (rule length_join_mono) simp
  then show ?case by simp
qed simp_all

lemma estimate_payload_size_eq:
  "estimate_payload_size api_key events =
     length (encode_basestring_ascii api_key) + length (dumps '', '' '': '' (JArr events)) + 25"
  by (simp add: estimate_payload_size_def json_dumps_def create_payload_def py_def
      encode_basestring_ascii_def escape_char_def char_of_def)

lemma length_payload_json:
  "length (payload_json api_key events) =
     length (encode_basestring_ascii api_key) + length (dumps '','' '':'' (JArr events)) + 22"
  by (simp add: payload_json_def json_dumps_compact_def create_payload_def py_def
      encode_basestring_ascii_def escape_char_def char_of_def)

lemma estimate_payload_size_member:
  assumes "event \<in> set events"
  shows "estimate_payload_size api_key [event] \<le> estimate_payload_size api_key events"
proof -
  have "length (dumps '', '' '': '' event)
        \<le> length (join '', '' (map (dumps '', '' '': '') events))"
    using assms by (intro length_join_member) simp
  then show ?thesis
    by (simp add: estimate_payload_size_eq)
qed

lemma length_escape_char: "1 \<le> length (escape_char n)"
  by (simp add: escape_char_def Let_def)

lemma length_encode_basestring_ascii:
  "length s + 2 \<le> length (encode_basestring_ascii s)"
proof -
  have "length s \<le> length (concat (map escape_char s))"
  proof (induction s)
    case (Cons n s)
    with length_escape_char [of n] show ?case by simp
  qed simp
  then show ?thesis by (simp add: encode_basestring_ascii_def)
qed

lemma length_encode_k: "length (encode_basestring_ascii (py ''k'')) = 3"
  by (simp add: encode_basestring_ascii_def escape_char_def py_def char_of_def)

lemma estimate_nulls:
  "estimate_payload_size (py ''k'') (replicate n JNull) = 30 + 4 * n + 2 * (n - 1)"
  by (simp add: estimate_payload_size_eq length_encode_k length_join sum_list_replicate comp_def)

lemma oversize_event_size: "SAFE_PAYLOAD_BYTES < estimate_payload_size api_key [oversize_event]"
proof -
  have "19922944 + 2 \<le> length (encode_basestring_ascii (replicate 19922944 97))"
    using length_encode_basestring_ascii [of "replicate 19922944 97"] by simp
  then show ?thesis
    by (simp add: estimate_payload_size_eq oversize_event_def SAFE_PAYLOAD_BYTES_def)
qed

text \<open>
  C2 (as amended). \<open>estimate_payload_size\<close> is the byte length of the payload serialized
  with the default separators \<^verbatim>\<open>", "\<close> and \<^verbatim>\<open>": "\<close>. The request body that
  \<^verbatim>\<open>generate_curl_script\<close> writes is the same payload, same key order and encoding, with
  the compact separators, so the estimate is not its length but an upper bound of it,
  at least three bytes above for every batch and api_key.
\<close>

theorem estimate_payload_size_upper_bound:
  "estimate_payload_size api_key events = length (json_dumps (create_payload api_key events))
   \<and> length (payload_json api_key events) + 3 \<le> estimate_payload_size api_key events"
proof
  show "estimate_payload_size api_key events
        = length (json_dumps (create_payload api_key events))"
    by (simp add: estimate_payload_size_def)
  show "length (payload_json api_key events) + 3 \<le> estimate_payload_size api_key events"
    using dumps_compact_le [of "JArr events"]
    by (simp add: estimate_payload_size_eq length_payload_json)
qed

text \<open>
  The claim as the specification states it fails on its own example, the envelope
  \<^verbatim>\<open>{"api_key":"X","events":[]}\<close>: 30 bytes are estimated, 27 are sent.
\<close>

theorem estimate_not_exact:
  "estimate_payload_size (py ''X'') [] = 30 \<and> length (payload_json (py ''X'') []) = 27"
  by (simp add: estimate_payload_size_eq length_payload_json
      encode_basestring_ascii_def escape_char_def py_def char_of_def)

section \<open>The batches partition the input\<close>

lemma concat_close_batch:
  "concat (close_batch batches current_batch) = concat batches @ current_batch"
  by (simp add: close_batch_def)

lemma batch_loop_concat:
  "batch_loop api_key events (batches, current_batch) = (batches', current_batch')
   \<Longrightarrow> concat batches' @ current_batch' = concat batches @ current_batch @ events"
proof (induction events arbitrary: batches current_batch)
  case Nil
  then show ?case by simp
next
  case (Cons event events)
  then show ?case
    by (auto simp: Let_def concat_close_batch split: if_splits)
qed

text \<open>
  C1. Concatenating the batches of \<open>batch_events\<close> in the order they were emitted gives
  back the input list itself: every event is in exactly one batch, in its original
  place, none lost and none repeated, and the batch sizes add up to the length of the
  input.
\<close>

theorem batch_events_partition:
  "concat (batch_events events api_key) = events
   \<and> sum_list (map length (batch_events events api_key)) = length events"
proof -
  obtain batches current_batch
    where run: "batch_loop api_key events ([], []) = (batches, current_batch)"
    by (cases "batch_loop api_key events ([], [])")
  from batch_loop_concat [OF run]
  have whole: "concat (batch_events events api_key) = events"
    by (simp add: batch_events_def run concat_close_batch)
  have "sum_list (map length (batch_events events api_key))
        = length (concat (batch_events events api_key))"
    by (simp add: length_concat)
  with whole show ?thesis by simp
qed

section \<open>What every batch satisfies\<close>

text \<open>
  A property holds of every emitted batch when it holds of each one-event batch and is
  kept when an event is appended under both limits: those are the only two ways the
  loop builds \<^verbatim>\<open>current_batch\<close>.
\<close>

lemma batch_loop_invariant:
  assumes run: "batch_loop api_key events (batches, current_batch) = (batches', current_batch')"
    and closed: "\<And>b. b \<in> set batches \<Longrightarrow> P b"
    and opened: "current_batch = [] \<or> P current_batch"
    and single: "\<And>event. P [event]"
    and grow: "\<And>c event. P c \<Longrightarrow> length (c @ [event]) \<le> MAX_EVENTS_PER_BATCH \<Longrightarrow>
               estimate_payload_size api_key (c @ [event]) \<le> SAFE_PAYLOAD_BYTES \<Longrightarrow>
               P (c @ [event])"
  shows "(\<forall>b \<in> set batches'. P b) \<and> (current_batch' = [] \<or> P current_batch')"
  using run closed opened
proof (induction events arbitrary: batches current_batch)
  case Nil
  then show ?case by auto
next
  case (Cons event events)
  let ?test = "current_batch @ [event]"
  have closing: "\<And>b. b \<in> set (close_batch batches current_batch) \<Longrightarrow> P b"
    using Cons.prems(2,3) by (auto simp: close_batch_def split: if_splits)
  show ?case
  proof (cases "length ?test > MAX_EVENTS_PER_BATCH
                \<or> estimate_payload_size api_key ?test > SAFE_PAYLOAD_BYTES")
    case True
    then have "batch_loop api_key events (close_batch batches current_batch, [event])
               = (batches', current_batch')"
      using Cons.prems(1) by (auto simp: Let_def split: if_splits)
    from Cons.IH [OF this closing] single show ?thesis by simp
  next
    case False
    then have next_run: "batch_loop api_key events (batches, ?test) = (batches', current_batch')"
      using Cons.prems(1) by (auto simp: Let_def split: if_splits)
    have "P ?test"
    proof (cases "current_batch = []")
      case True
      then show ?thesis using single by simp
    next
      case nonempty: False
      with Cons.prems(3) have "P current_batch" by simp
      then show ?thesis using grow False by simp
    qed
    with Cons.IH [OF next_run Cons.prems(2)] show ?thesis by simp
  qed
qed

lemma batch_events_invariant:
  assumes single: "\<And>event. P [event]"
    and grow: "\<And>c event. P c \<Longrightarrow> length (c @ [event]) \<le> MAX_EVENTS_PER_BATCH \<Longrightarrow>
               estimate_payload_size api_key (c @ [event]) \<le> SAFE_PAYLOAD_BYTES \<Longrightarrow>
               P (c @ [event])"
    and member: "b \<in> set (batch_events events api_key)"
  shows "P b"
proof -
  obtain batches current_batch
    where run: "batch_loop api_key events ([], []) = (batches, current_batch)"
    by (cases "batch_loop api_key events ([], [])")
  have "(\<forall>b \<in> set batches. P b) \<and> (current_batch = [] \<or> P current_batch)"
    by (rule batch_loop_invariant [OF run _ _ single grow]) auto
  with member show ?thesis
    by (auto simp: batch_events_def run close_batch_def split: if_splits)
qed

lemma batch_loop_append:
  "batch_loop api_key (xs @ ys) state = batch_loop api_key ys (batch_loop api_key xs state)"
proof (induction xs arbitrary: state)
  case Nil
  show ?case by (cases state) simp
next
  case (Cons x xs)
  show ?case by (cases state) (simp add: Let_def Cons)
qed

lemma batch_loop_fits:
  assumes "length current_batch + length events \<le> MAX_EVENTS_PER_BATCH"
    and "\<And>n. n \<le> length events \<Longrightarrow>
           estimate_payload_size api_key (current_batch @ take n events) \<le> SAFE_PAYLOAD_BYTES"
  shows "batch_loop api_key events (batches, current_batch) = (batches, current_batch @ events)"
  using assms
proof (induction events arbitrary: current_batch)
  case Nil
  then show ?case by simp
next
  case (Cons event events)
  have "estimate_payload_size api_key (current_batch @ take 1 (event # events))
        \<le> SAFE_PAYLOAD_BYTES"
    by (rule Cons.prems(2)) simp
  then have fits: "estimate_payload_size api_key (current_batch @ [event]) \<le> SAFE_PAYLOAD_BYTES"
    by simp
  have "batch_loop api_key events (batches, current_batch @ [event])
        = (batches, (current_batch @ [event]) @ events)"
  proof (rule Cons.IH)
    show "length (current_batch @ [event]) + length events \<le> MAX_EVENTS_PER_BATCH"
      using Cons.prems(1) by simp
    fix n assume "n \<le> length events"
    then have "estimate_payload_size api_key (current_batch @ take (Suc n) (event # events))
               \<le> SAFE_PAYLOAD_BYTES"
      by (intro Cons.prems(2)) simp
    then show "estimate_payload_size api_key ((current_batch @ [event]) @ take n events)
               \<le> SAFE_PAYLOAD_BYTES"
      by simp
  qed
  with fits Cons.prems(1) show ?case by (simp add: Let_def)
qed

text \<open>2001 events that are small: the first 2000 fill a batch, the last one opens the next.\<close>

lemma batch_2001_nulls:
  "batch_events (replicate 2001 JNull) (py ''k'') = [replicate 2000 JNull, [JNull]]"
proof -
  have "batch_loop (py ''k'') (replicate 2000 JNull) ([], []) = ([], [] @ replicate 2000 JNull)"
  proof (rule batch_loop_fits)
    show "length [] + length (replicate 2000 JNull) \<le> MAX_EVENTS_PER_BATCH"
      by (simp add: MAX_EVENTS_PER_BATCH_def)
    fix n :: nat assume "n \<le> length (replicate 2000 JNull)"
    then have "n \<le> 2000" by simp
    then show "estimate_payload_size (py ''k'') ([] @ take n (replicate 2000 JNull))
               \<le> SAFE_PAYLOAD_BYTES"
      by (simp add: estimate_nulls SAFE_PAYLOAD_BYTES_def min_def)
  qed
  moreover have "replicate (2000 + 1) JNull = replicate 2000 JNull @ replicate 1 JNull"
    by (rule replicate_add)
  then have "replicate 2001 JNull = replicate 2000 JNull @ [JNull]"
    by simp
  ultimately have "batch_loop (py ''k'') (replicate 2001 JNull) ([], [])
                   = ([replicate 2000 JNull], [JNull])"
    by (simp add: batch_loop_append Let_def MAX_EVENTS_PER_BATCH_def close_batch_def)
  then show ?thesis by (simp add: batch_events_def close_batch_def)
qed

text \<open>
  C4. Every batch of \<open>batch_events\<close> holds at most \<open>MAX_EVENTS_PER_BATCH\<close>, that is 2000,
  events, whatever the input list and the api_key.
\<close>

theorem batch_events_count_limit:
  "MAX_EVENTS_PER_BATCH = 2000
   \<and> (\<forall>b \<in> set (batch_events events api_key). length b \<le> MAX_EVENTS_PER_BATCH)"
proof (intro conjI ballI)
  show "MAX_EVENTS_PER_BATCH = 2000"
    by (simp add: MAX_EVENTS_PER_BATCH_def)
  fix b assume "b \<in> set (batch_events events api_key)"
  show "length b \<le> MAX_EVENTS_PER_BATCH"
    by (rule batch_events_invariant
          [where P = "\<lambda>b. length b \<le> MAX_EVENTS_PER_BATCH", OF _ _ \<open>b \<in> _\<close>])
       (simp_all add: MAX_EVENTS_PER_BATCH_def)
qed

theorem batch_events_count_limit_witness:
  "batch_events (replicate 2001 JNull) (py ''k'') = [replicate 2000 JNull, [JNull]]
   \<and> length (replicate 2000 JNull) \<le> MAX_EVENTS_PER_BATCH
   \<and> length [JNull] \<le> MAX_EVENTS_PER_BATCH"
  using batch_events_count_limit [of "replicate 2001 JNull" "py ''k''"] batch_2001_nulls
  by simp

text \<open>
  C10. No batch of \<open>batch_events\<close> is empty, whatever the input list and the api_key,
  and the empty input list gives no batch at all.
\<close>

theorem batch_events_nonempty:
  "[] \<notin> set (batch_events events api_key) \<and> batch_events [] api_key = []"
proof
  show "[] \<notin> set (batch_events events api_key)"
  proof
    assume "[] \<in> set (batch_events events api_key)"
    from batch_events_invariant [where P = "\<lambda>b. b \<noteq> []", OF _ _ this]
    show False by simp
  qed
  show "batch_events [] api_key = []"
    by (simp add: batch_events_def close_batch_def)
qed

text \<open>
  C3. Every batch of \<open>batch_events\<close> either has an estimated payload size, by
  \<open>estimate_payload_size\<close> with the same api_key, of at most \<open>SAFE_PAYLOAD_BYTES\<close>, or is
  a batch of one event whose envelope alone is already above that limit.
\<close>

theorem batch_events_size_limit:
  "\<forall>b \<in> set (batch_events events api_key).
     estimate_payload_size api_key b \<le> SAFE_PAYLOAD_BYTES
     \<or> (\<exists>event. b = [event] \<and> SAFE_PAYLOAD_BYTES < estimate_payload_size api_key [event])"
proof
  fix b assume "b \<in> set (batch_events events api_key)"
  let ?P = "\<lambda>b. estimate_payload_size api_key b \<le> SAFE_PAYLOAD_BYTES
     \<or> (\<exists>event. b = [event] \<and> SAFE_PAYLOAD_BYTES < estimate_payload_size api_key [event])"
  show "?P b"
  proof (rule batch_events_invariant [where P = ?P, OF _ _ \<open>b \<in> _\<close>])
    fix event show "?P [event]" by (simp add: not_le [symmetric])
  next
    fix c event
    assume "estimate_payload_size api_key (c @ [event]) \<le> SAFE_PAYLOAD_BYTES"
    then show "?P (c @ [event])" by simp
  qed
qed

lemma batch_null_oversize:
  "batch_events [JNull, oversize_event] (py ''k'') = [[JNull], [oversize_event]]"
proof -
  have small: "estimate_payload_size (py ''k'') [JNull] \<le> SAFE_PAYLOAD_BYTES"
    using estimate_nulls [of 1] by (simp add: SAFE_PAYLOAD_BYTES_def)
  have "estimate_payload_size (py ''k'') [oversize_event]
        \<le> estimate_payload_size (py ''k'') [JNull, oversize_event]"
    by (rule estimate_payload_size_member) simp
  with oversize_event_size [of "py ''k''"]
  have big: "SAFE_PAYLOAD_BYTES < estimate_payload_size (py ''k'') [JNull, oversize_event]"
    by simp
  from small big show ?thesis
    by (simp add: batch_events_def close_batch_def Let_def MAX_EVENTS_PER_BATCH_def)
qed

theorem batch_events_size_limit_witness:
  "batch_events [JNull, oversize_event] (py ''k'') = [[JNull], [oversize_event]]
   \<and> estimate_payload_size (py ''k'') [JNull] \<le> SAFE_PAYLOAD_BYTES
   \<and> SAFE_PAYLOAD_BYTES < estimate_payload_size (py ''k'') [oversize_event]"
  using batch_events_size_limit [of "[JNull, oversize_event]" "py ''k''"]
    batch_null_oversize oversize_event_size [of "py ''k''"] estimate_nulls [of 1]
  by (simp add: SAFE_PAYLOAD_BYTES_def)

section \<open>An event that is too large on its own\<close>

lemma batch_loop_keeps_closed:
  "batch_loop api_key events (batches, current_batch) = (batches', current_batch')
   \<Longrightarrow> set batches \<subseteq> set batches'"
proof (induction events arbitrary: batches current_batch)
  case Nil
  then show ?case by simp
next
  case (Cons event events)
  from Cons.prems show ?case
    by (auto simp: Let_def close_batch_def split: if_splits dest!: Cons.IH)
qed

lemma batch_loop_oversize_arrives:
  assumes "SAFE_PAYLOAD_BYTES < estimate_payload_size api_key [event]"
  shows "batch_loop api_key (event # events) (batches, current_batch)
         = batch_loop api_key events (close_batch batches current_batch, [event])"
proof -
  have "estimate_payload_size api_key [event]
        \<le> estimate_payload_size api_key (current_batch @ [event])"
    by (rule estimate_payload_size_member) simp
  with assms show ?thesis by (simp add: Let_def)
qed

lemma batch_loop_oversize_open:
  assumes "SAFE_PAYLOAD_BYTES < estimate_payload_size api_key [event]"
    and "batch_loop api_key events (batches, [event]) = (batches', current_batch')"
  shows "[event] \<in> set batches' \<or> current_batch' = [event]"
proof (cases events)
  case Nil
  with assms(2) show ?thesis by simp
next
  case (Cons next_event later)
  have "estimate_payload_size api_key [event]
        \<le> estimate_payload_size api_key ([event] @ [next_event])"
    by (rule estimate_payload_size_member) simp
  with assms(1) have "SAFE_PAYLOAD_BYTES < estimate_payload_size api_key [event, next_event]"
    by simp
  with assms(2) Cons
  have "batch_loop api_key later (batches @ [[event]], [next_event]) = (batches', current_batch')"
    by (simp add: Let_def close_batch_def split: if_splits)
  from batch_loop_keeps_closed [OF this] show ?thesis by auto
qed

lemma batch_events_single: "batch_events [event] api_key = [[event]]"
  by (simp add: batch_events_def close_batch_def Let_def)

text \<open>
  C5 (as amended). An event whose envelope alone is above the byte limit is emitted as a
  batch of its own, a plain list holding that event: \<open>batch_events\<close> returns normally,
  and its result, a list of lists of events, has no place for a flag.
\<close>

theorem oversize_event_emitted_alone:
  assumes "event \<in> set events"
    and "SAFE_PAYLOAD_BYTES < estimate_payload_size api_key [event]"
  shows "[event] \<in> set (batch_events events api_key)"
proof -
  from assms(1) obtain before after where split: "events = before @ event # after"
    by (auto simp: in_set_conv_decomp)
  obtain batches current_batch
    where first: "batch_loop api_key before ([], []) = (batches, current_batch)"
    by (cases "batch_loop api_key before ([], [])")
  obtain batches' current_batch'
    where rest: "batch_loop api_key after (close_batch batches current_batch, [event])
                 = (batches', current_batch')"
    by (cases "batch_loop api_key after (close_batch batches current_batch, [event])")
  have "batch_loop api_key events ([], []) = (batches', current_batch')"
    by (simp only: split batch_loop_append first batch_loop_oversize_arrives [OF assms(2)] rest)
  moreover from batch_loop_oversize_open [OF assms(2) rest]
  have "[event] \<in> set (close_batch batches' current_batch')"
    by (auto simp: close_batch_def)
  ultimately show ?thesis by (simp add: batch_events_def)
qed

theorem oversize_event_emitted_alone_witness:
  "oversize_event \<in> set [JNull, oversize_event]
   \<and> SAFE_PAYLOAD_BYTES < estimate_payload_size (py ''k'') [oversize_event]
   \<and> [oversize_event] \<in> set (batch_events [JNull, oversize_event] (py ''k''))"
  using oversize_event_emitted_alone [of oversize_event "[JNull, oversize_event]" "py ''k''"]
    oversize_event_size [of "py ''k''"]
  by simp

text \<open>
  The claim as stated, a flag on the batch or a failure, does not hold: for the oversize
  event alone the result is the ordinary value \<open>[[oversize_event]]\<close>, the same shape as
  the result for any single event that fits.
\<close>

theorem oversize_event_not_flagged:
  "batch_events [oversize_event] (py ''k'') = [[oversize_event]]
   \<and> SAFE_PAYLOAD_BYTES < estimate_payload_size (py ''k'') [oversize_event]
   \<and> batch_events [JNull] (py ''k'') = [[JNull]]
   \<and> estimate_payload_size (py ''k'') [JNull] \<le> SAFE_PAYLOAD_BYTES"
  using estimate_nulls [of 1] oversize_event_size [of "py ''k''"]
  by (simp add: batch_events_single SAFE_PAYLOAD_BYTES_def)

section \<open>Field copy\<close>

lemma py_eq_iff: "py a = py b \<longleftrightarrow> a = b"
  by (simp add: py_def inj_on_def)

lemma py_eq_Nil: "py s = [] \<longleftrightarrow> s = []"
  by (simp add: py_def)

lemmas py_simps = py_eq_iff py_eq_Nil

lemma map_of_dict_set:
  "map_of (dict_set d k v) k' = (if k' = k then Some v else map_of d k')"
  by (induction d k v rule: dict_set.induct) auto

lemma map_of_copy_fields_other:
  "tgt \<notin> snd ` set items \<Longrightarrow>
   map_of (copy_fields export_event items upload_event) tgt = map_of upload_event tgt"
proof (induction items arbitrary: upload_event)
  case Nil
  show ?case by simp
next
  case (Cons item items)
  obtain export_field upload_field where item: "item = (export_field, upload_field)"
    by (cases item)
  with Cons.prems have "tgt \<noteq> upload_field" and "tgt \<notin> snd ` set items"
    by auto
  with Cons.IH show ?case
    by (simp add: item map_of_dict_set split: option.splits)
qed

lemma map_of_copy_fields:
  assumes "distinct (map snd items)" and "(src, tgt) \<in> set items"
  shows "map_of (copy_fields export_event items upload_event) tgt =
     (case map_of export_event src of
        None \<Rightarrow> map_of upload_event tgt
      | Some v \<Rightarrow> if v = JNull \<or> v = JStr [] \<or> v = JObj [] then map_of upload_event tgt
                  else Some v)"
  using assms
proof (induction items arbitrary: upload_event)
  case Nil
  then show ?case by simp
next
  case (Cons item items)
  obtain export_field upload_field where item: "item = (export_field, upload_field)"
    by (cases item)
  show ?case
  proof (cases "(src, tgt) = item")
    case True
    with item have same: "export_field = src" "upload_field = tgt" by simp_all
    from Cons.prems(1) have "tgt \<notin> snd ` set items"
      by (simp add: item same)
    then show ?thesis
      by (simp add: item same map_of_copy_fields_other map_of_dict_set split: option.splits)
  next
    case False
    with Cons.prems(2) have later: "(src, tgt) \<in> set items" by simp
    from Cons.prems(1) have rest: "distinct (map snd items)" by simp
    from Cons.prems(1) later have "tgt \<noteq> upload_field"
      by (force simp: item)
    with Cons.IH [OF rest later] show ?thesis
      by (simp add: item map_of_dict_set split: option.splits)
  qed
qed

lemma distinct_FIELD_MAPPING: "distinct (map snd FIELD_MAPPING)"
  by (simp add: FIELD_MAPPING_def py_def)

lemma time_not_mapped: "py ''time'' \<notin> snd ` set FIELD_MAPPING"
  by (simp add: FIELD_MAPPING_def py_def)

lemma map_of_mapped:
  assumes "(src, tgt) \<in> set FIELD_MAPPING"
  shows "map_of (copy_fields export_event FIELD_MAPPING []) tgt =
     (case map_of export_event src of
        None \<Rightarrow> None
      | Some v \<Rightarrow> if v = JNull \<or> v = JStr [] \<or> v = JObj [] then None else Some v)"
  using map_of_copy_fields [OF distinct_FIELD_MAPPING assms, of export_event "[]"]
  by (simp split: option.splits)

lemma convert_event_output:
  assumes "convert_event zone export_event = Inr (Some upload_event)"
  shows "\<exists>timestamp. parse_timestamp zone export_event = Inr timestamp \<and>
     upload_event =
       (case timestamp of
          None \<Rightarrow> copy_fields export_event FIELD_MAPPING []
        | Some t \<Rightarrow>
            if t \<noteq> 0 then dict_set (copy_fields export_event FIELD_MAPPING []) (py ''time'') (JInt t)
            else copy_fields export_event FIELD_MAPPING [])"
  using assms
  by (auto simp: convert_event_def Let_def split: sum.splits if_splits)

lemma map_of_output:
  assumes "convert_event zone export_event = Inr (Some upload_event)"
    and "(src, tgt) \<in> set FIELD_MAPPING"
  shows "map_of upload_event tgt = map_of (copy_fields export_event FIELD_MAPPING []) tgt"
proof -
  from assms(2) time_not_mapped have "tgt \<noteq> py ''time''"
    by force
  with convert_event_output [OF assms(1)] show ?thesis
    by (auto simp: map_of_dict_set split: option.splits if_splits)
qed

text \<open>
  C9. In the field copy only null, the empty string and the empty object count as
  absent. For an allow-listed field of the raw event whose value is the empty array or
  the number 0, the record built by the copy has that value, unchanged, under the
  mapped name; more generally the record has the field exactly when the value is none
  of the three, and then with the same value. Whenever \<open>convert_event\<close> returns an
  event, it has the copied fields as the record has them.
\<close>

theorem field_copy_keeps_empty_array_and_zero:
  assumes "(export_field, upload_field) \<in> set FIELD_MAPPING"
    and "map_of export_event export_field = Some v"
  shows "(v = JArr [] \<or> v = JInt 0 \<longrightarrow>
            map_of (copy_fields export_event FIELD_MAPPING []) upload_field = Some v)
     \<and> map_of (copy_fields export_event FIELD_MAPPING []) upload_field =
          (if v = JNull \<or> v = JStr [] \<or> v = JObj [] then None else Some v)
     \<and> (\<forall>upload_event. convert_event zone export_event = Inr (Some upload_event) \<longrightarrow>
            map_of upload_event upload_field =
            map_of (copy_fields export_event FIELD_MAPPING []) upload_field)"
  using map_of_output [OF _ assms(1)] map_of_mapped [OF assms(1), of export_event] assms(2)
  by auto

section \<open>Validation\<close>

lemma has_truthy_time:
  "k \<noteq> py ''time'' \<Longrightarrow> has_truthy (dict_set d (py ''time'') v) k = has_truthy d k"
  by (simp add: has_truthy_def dict_get_def map_of_dict_set)

lemma required_not_time:
  "py ''user_id'' \<noteq> py ''time''" "py ''device_id'' \<noteq> py ''time''" "py ''event_type'' \<noteq> py ''time''"
  by (simp_all add: py_def)

text \<open>
  C6 (as amended). For every raw event on which timestamp resolution returns,
  \<open>convert_event\<close> returns none exactly when the mapped record has no truthy
  \<^verbatim>\<open>event_type\<close>, or has neither a truthy \<^verbatim>\<open>user_id\<close> nor a truthy \<^verbatim>\<open>device_id\<close>, where
  truthy is Python's truth value (so 0, false and the empty array count as missing);
  the validation raises nothing, its outcome is a returned value.
\<close>

theorem convert_event_rejects_iff:
  assumes "parse_timestamp zone export_event = Inr timestamp"
  shows "(convert_event zone export_event = Inr None \<longleftrightarrow>
            \<not> has_truthy (copy_fields export_event FIELD_MAPPING []) (py ''event_type'')
            \<or> (\<not> has_truthy (copy_fields export_event FIELD_MAPPING []) (py ''user_id'')
                \<and> \<not> has_truthy (copy_fields export_event FIELD_MAPPING []) (py ''device_id'')))
     \<and> (\<exists>outcome. convert_event zone export_event = Inr outcome)"
proof -
  let ?mapped = "copy_fields export_event FIELD_MAPPING []"
  define upload_event where "upload_event =
     (case timestamp of
        None \<Rightarrow> ?mapped
      | Some t \<Rightarrow> if t \<noteq> 0 then dict_set ?mapped (py ''time'') (JInt t) else ?mapped)"
  have same: "has_truthy upload_event k = has_truthy ?mapped k" if "k \<noteq> py ''time''" for k
    using that by (simp add: upload_event_def has_truthy_time split: option.splits)
  have "convert_event zone export_event =
          (if \<not> (has_truthy upload_event (py ''user_id'') \<or> has_truthy upload_event (py ''device_id''))
           then Inr None
           else if \<not> has_truthy upload_event (py ''event_type'') then Inr None
           else Inr (Some upload_event))"
    by (simp add: convert_event_def assms Let_def upload_event_def has_truthy_def)
  then show ?thesis
    by (auto simp: same required_not_time)
qed

section \<open>Timestamp resolution\<close>

lemma strptime_error: "strptime with_fraction s = Inl e \<Longrightarrow> e = ValueError"
  by (auto simp: strptime_def strptime_of_def split: list.splits if_splits prod.splits)

lemma local_time_error: "local_time zone u = Inl e \<Longrightarrow> e = ValueError"
  by (auto simp: local_time_def Let_def split: if_splits)

lemma local_to_seconds_error: "local_to_seconds zone dt = Inl e \<Longrightarrow> e = ValueError"
  by (auto simp: local_to_seconds_def Let_def split: sum.splits if_splits dest: local_time_error)

lemma parse_field_error: "parse_field zone v = Inl e \<Longrightarrow> e = ValueError \<or> e = TypeError"
  by (cases v)
     (auto simp: datetime_timestamp_def split: sum.splits
           dest: strptime_error local_to_seconds_error)

lemma strptime_empty: "strptime with_fraction [] = Inl ValueError"
  by (simp add: strptime_def strptime_of_def re_date_time_f_def re_date_time_def re_Y_def)

lemma parse_field_needs_truthy: "parse_field zone v = Inr ms \<Longrightarrow> truthy v"
  by (cases v) (auto simp: strptime_empty)

lemma timestamp_loop_first:
  "timestamp_loop zone event fs =
     (case List.map_filter (parsed_millis zone event) fs of
        [] \<Rightarrow> None
      | ms # others \<Rightarrow> Some (Inr ms))"
proof (induction fs)
  case Nil
  show ?case by simp
next
  case (Cons field fs)
  show ?case
  proof (cases "map_of event field")
    case None
    with Cons show ?thesis
      by (simp add: parsed_millis_def)
  next
    case (Some v)
    show ?thesis
    proof (cases "parse_field zone v")
      case (Inl e)
      with parse_field_error have "e = ValueError \<or> e = TypeError" by blast
      with Inl Some Cons show ?thesis
        by (auto simp: parsed_millis_def)
    next
      case (Inr ms)
      with parse_field_needs_truthy have "truthy v" by blast
      with Inr Some show ?thesis
        by (simp add: parsed_millis_def)
    qed
  qed
qed

text \<open>
  C7 (as amended). Timestamp resolution tries \<^verbatim>\<open>event_time\<close>, \<^verbatim>\<open>client_event_time\<close> and
  \<^verbatim>\<open>server_received_time\<close> in that order, parsing each as \<^verbatim>\<open>YYYY-MM-DD HH:MM:SS\<close> with
  optional fractional seconds; the first field that parses and converts wins, as epoch
  milliseconds. If none does, the result is the \<^verbatim>\<open>time\<close> field, converted by
  \<^verbatim>\<open>int\<close>, when that field is a finite number other than zero; a \<^verbatim>\<open>time\<close> that is
  missing or a zero gives no timestamp.
\<close>

theorem parse_timestamp_resolution:
  "(first_parsed zone event = Some ms \<longrightarrow> parse_timestamp zone event = Inr (Some ms))
   \<and> (first_parsed zone event = None \<and> map_of event (py ''time'') = Some v
        \<and> is_number v \<and> truthy v \<and> py_int v = Inr i
      \<longrightarrow> parse_timestamp zone event = Inr (Some i))
   \<and> (first_parsed zone event = None
        \<and> (map_of event (py ''time'') = None
            \<or> (\<exists>v. map_of event (py ''time'') = Some v \<and> is_number v \<and> \<not> truthy v))
      \<longrightarrow> parse_timestamp zone event = Inr None)"
  by (auto simp: parse_timestamp_def first_parsed_def timestamp_loop_first split: list.splits)

section \<open>Evaluating the library calls\<close>

lemma floor_rat_numeral: "\<lfloor>(numeral a / numeral b :: rat)\<rfloor> = numeral a div numeral b"
  using floor_divide_of_int_eq [of "numeral a" "numeral b", where ?'a = rat] by simp

lemmas re_defs = strptime_def strptime_of_def re_date_time_f_def re_date_time_def re_Y_def
  re_m_def re_d_def re_H_def re_M_def re_S_def re_f_def decimal_value_def decimal_zeros_def
  is_space_def
  days_in_month_def is_leap_def

lemmas float_defs = float_add_def float_mul_def float_div_def round_double_def
  round_half_even_def floor_log2_def pow2_def trunc_def Let_def floor_rat_numeral

lemmas time_defs = datetime_timestamp_def local_to_seconds_def local_time_def seconds_of_def
  ymd_to_ord_def days_before_year_def days_before_month_def is_leap_def epoch_def
  max_fold_seconds_def

lemma strptime_example1:
  "strptime True (py ''2024-01-15 10:30:45.123456'') = Inr example1_datetime"
  by (simp add: re_defs py_def example1_datetime_def)

lemma timestamp_example1_utc:
  "datetime_timestamp utc example1_datetime = Inr (1788152009324973 / 1048576)"
  by (simp add: time_defs utc_def float_defs example1_datetime_def)

lemma timestamp_example1_east:
  "datetime_timestamp (fixed_offset 3600) example1_datetime
   = Inr (1788148234451373 / 1048576)"
  by (simp add: time_defs fixed_offset_def float_defs example1_datetime_def)

lemma millis_example1:
  "trunc (float_mul (1788152009324973 / 1048576) 1000) = 1705314645123"
  "trunc (float_mul (1788148234451373 / 1048576) 1000) = 1705311045123"
  by (simp_all add: float_defs)

lemma parse_field_example1:
  "parse_field utc (JStr (py ''2024-01-15 10:30:45.123456'')) = Inr 1705314645123"
  "parse_field (fixed_offset 3600) (JStr (py ''2024-01-15 10:30:45.123456''))
   = Inr 1705311045123"
proof -
  have dot: "46 \<in> set (py ''2024-01-15 10:30:45.123456'')"
    by (simp add: py_def)
  show "parse_field utc (JStr (py ''2024-01-15 10:30:45.123456'')) = Inr 1705314645123"
    by (simp add: dot strptime_example1 timestamp_example1_utc millis_example1)
  show "parse_field (fixed_offset 3600) (JStr (py ''2024-01-15 10:30:45.123456''))
        = Inr 1705311045123"
    by (simp add: dot strptime_example1 timestamp_example1_east millis_example1)
qed

lemma parse_timestamp_example1:
  "parse_timestamp utc example1_raw = Inr (Some 1705314645123)"
  "parse_timestamp (fixed_offset 3600) example1_raw = Inr (Some 1705311045123)"
  by (simp_all add: parse_timestamp_def timestamp_fields_def example1_raw_def py_simps
      parse_field_example1 del: parse_field.simps)

lemma copy_fields_example1:
  "copy_fields example1_raw FIELD_MAPPING [] =
     [(py ''user_id'', JStr (py ''u1'')), (py ''event_type'', JStr (py ''login''))]"
  by (simp add: FIELD_MAPPING_def example1_raw_def py_simps)

lemma parse_field_second_field:
  "parse_field utc (JStr (py ''not a date'')) = Inl ValueError"
  "parse_field utc (JStr (py ''2024-01-15 10:30:45'')) = Inr 1705314645000"
proof -
  have "46 \<notin> set (py ''not a date'')"
    by (simp add: py_def)
  moreover have "strptime False (py ''not a date'') = Inl ValueError"
    by (simp add: re_defs py_def)
  ultimately show "parse_field utc (JStr (py ''not a date'')) = Inl ValueError"
    by simp
  have "46 \<notin> set (py ''2024-01-15 10:30:45'')"
    by (simp add: py_def)
  moreover have "strptime False (py ''2024-01-15 10:30:45'') = Inr second_field_datetime"
    by (simp add: re_defs py_def second_field_datetime_def)
  moreover have "datetime_timestamp utc second_field_datetime = Inr 1705314645"
    by (simp add: time_defs utc_def float_defs second_field_datetime_def)
  moreover have "trunc (float_mul 1705314645 1000) = 1705314645000"
    by (simp add: float_defs)
  ultimately show "parse_field utc (JStr (py ''2024-01-15 10:30:45'')) = Inr 1705314645000"
    by simp
qed

lemma first_parsed_second_field: "first_parsed utc second_field_raw = Some 1705314645000"
  by (simp add: first_parsed_def parsed_millis_def timestamp_fields_def second_field_raw_def
      py_simps parse_field_second_field del: parse_field.simps)

lemma first_parsed_no_fields:
  "first_parsed utc numeric_time_raw = None"
  "first_parsed utc zero_time_raw = None"
  by (simp_all add: first_parsed_def parsed_millis_def timestamp_fields_def
      numeric_time_raw_def zero_time_raw_def py_simps)

lemma int_of_str_abc: "int_of_str (py ''abc'') = Inl ValueError"
  by (simp add: int_of_str_def py_def is_int_space_def is_space_def decimal_value_def
      decimal_zeros_def)

lemma parse_timestamp_no_fields:
  "parse_timestamp utc sparse_raw = Inr None"
  "parse_timestamp utc zero_user_raw = Inr None"
  "parse_timestamp utc text_time_raw = Inl ValueError"
  "parse_timestamp utc zero_time_raw = Inr None"
  by (simp_all add: parse_timestamp_def timestamp_fields_def sparse_raw_def zero_user_raw_def
      text_time_raw_def zero_time_raw_def py_simps int_of_str_abc)

lemma copy_fields_examples:
  "copy_fields sparse_raw FIELD_MAPPING [] = sparse_normalized"
  "copy_fields zero_user_raw FIELD_MAPPING [] = zero_user_raw"
  "copy_fields text_time_raw FIELD_MAPPING [] = []"
  by (simp_all add: FIELD_MAPPING_def sparse_raw_def sparse_normalized_def zero_user_raw_def
      text_time_raw_def py_simps)

lemma lookups:
  "map_of zero_user_raw (py ''user_id'') = Some (JInt 0)"
  "map_of zero_user_raw (py ''device_id'') = None"
  "map_of zero_user_raw (py ''event_type'') = Some (JStr (py ''login''))"
  "map_of zero_time_raw (py ''time'') = Some (JInt 0)"
  "map_of numeric_time_raw (py ''time'') = Some (JInt 1705314645123)"
  "map_of sparse_normalized (py ''user_id'') = Some (JStr (py ''u1''))"
  "map_of sparse_normalized (py ''device_id'') = None"
  "map_of sparse_normalized (py ''event_type'') = Some (JStr (py ''login''))"
  by (simp_all add: zero_user_raw_def sparse_normalized_def zero_time_raw_def
      numeric_time_raw_def py_simps)

lemma convert_event_sparse: "convert_event utc sparse_raw = Inr (Some sparse_normalized)"
  by (simp add: convert_event_def parse_timestamp_no_fields copy_fields_examples dict_get_def
      lookups py_simps)

section \<open>The claims about the normalizer, at concrete events\<close>

theorem field_copy_keeps_empty_array_and_zero_witness:
  "convert_event utc sparse_raw = Inr (Some sparse_normalized)
   \<and> copy_fields sparse_raw FIELD_MAPPING [] = sparse_normalized
   \<and> map_of sparse_raw (py ''groups'') = Some (JArr [])
   \<and> map_of sparse_normalized (py ''groups'') = Some (JArr [])
   \<and> map_of sparse_raw (py ''price'') = Some (JInt 0)
   \<and> map_of sparse_normalized (py ''price'') = Some (JInt 0)
   \<and> map_of sparse_raw (py ''city'') = Some (JStr [])
   \<and> map_of sparse_normalized (py ''city'') = None"
proof -
  have mapped: "(py ''groups'', py ''groups'') \<in> set FIELD_MAPPING"
    "(py ''price'', py ''price'') \<in> set FIELD_MAPPING"
    "(py ''city'', py ''city'') \<in> set FIELD_MAPPING"
    by (simp_all add: FIELD_MAPPING_def)
  have raw: "map_of sparse_raw (py ''groups'') = Some (JArr [])"
    "map_of sparse_raw (py ''price'') = Some (JInt 0)"
    "map_of sparse_raw (py ''city'') = Some (JStr [])"
    by (simp_all add: sparse_raw_def py_simps)
  from field_copy_keeps_empty_array_and_zero [OF mapped(1) raw(1), of utc]
    field_copy_keeps_empty_array_and_zero [OF mapped(2) raw(2), of utc]
    field_copy_keeps_empty_array_and_zero [OF mapped(3) raw(3), of utc]
  show ?thesis
    by (simp add: convert_event_sparse copy_fields_examples raw)
qed

text \<open>
  The claim C6 as stated fails twice. The mapped record of \<open>zero_user_raw\<close> has both
  \<^verbatim>\<open>event_type\<close> and \<^verbatim>\<open>user_id\<close>, neither null nor empty, and still the event is rejected,
  since 0 is false in Python. And \<open>text_time_raw\<close>, which has no \<^verbatim>\<open>event_type\<close>, is not
  answered with none: \<^verbatim>\<open>int("abc")\<close> raises before the validation is reached.
\<close>

theorem convert_event_rejection_as_stated_fails:
  "convert_event utc zero_user_raw = Inr None
   \<and> \<not> rejected_as_specified (copy_fields zero_user_raw FIELD_MAPPING [])
   \<and> convert_event utc text_time_raw = Inl ValueError
   \<and> rejected_as_specified (copy_fields text_time_raw FIELD_MAPPING [])"
  by (simp add: convert_event_def parse_timestamp_no_fields copy_fields_examples dict_get_def
      rejected_as_specified_def present_nonempty_def lookups py_simps)

theorem convert_event_rejects_iff_witness:
  "parse_timestamp utc zero_user_raw = Inr None
   \<and> convert_event utc zero_user_raw = Inr None
   \<and> has_truthy (copy_fields zero_user_raw FIELD_MAPPING []) (py ''event_type'')
   \<and> \<not> has_truthy (copy_fields zero_user_raw FIELD_MAPPING []) (py ''user_id'')
   \<and> \<not> has_truthy (copy_fields zero_user_raw FIELD_MAPPING []) (py ''device_id'')
   \<and> parse_timestamp utc sparse_raw = Inr None
   \<and> convert_event utc sparse_raw \<noteq> Inr None
   \<and> has_truthy (copy_fields sparse_raw FIELD_MAPPING []) (py ''event_type'')
   \<and> has_truthy (copy_fields sparse_raw FIELD_MAPPING []) (py ''user_id'')"
  using convert_event_rejects_iff [OF parse_timestamp_no_fields(2)]
    convert_event_rejects_iff [OF parse_timestamp_no_fields(1)]
  by (simp add: parse_timestamp_no_fields copy_fields_examples has_truthy_def dict_get_def
      lookups py_simps)

text \<open>
  The claim C7 as stated fails for a \<^verbatim>\<open>time\<close> field that is present, numeric and zero:
  the code's test \<^verbatim>\<open>event["time"]\<close> is false for it, and no timestamp is returned.
\<close>

theorem parse_timestamp_zero_time:
  "parse_timestamp utc zero_time_raw = Inr None
   \<and> resolve_as_specified utc zero_time_raw = Inr (Some 0)"
  by (simp add: parse_timestamp_no_fields resolve_as_specified_def first_parsed_no_fields
      lookups)

theorem parse_timestamp_resolution_witness:
  "first_parsed utc second_field_raw = Some 1705314645000
   \<and> parse_timestamp utc second_field_raw = Inr (Some 1705314645000)
   \<and> first_parsed utc numeric_time_raw = None
   \<and> parse_timestamp utc numeric_time_raw = Inr (Some 1705314645123)
   \<and> first_parsed utc zero_time_raw = None
   \<and> parse_timestamp utc zero_time_raw = Inr None"
  using parse_timestamp_resolution [of utc second_field_raw 1705314645000]
    parse_timestamp_resolution
      [of utc numeric_time_raw _ "JInt 1705314645123" 1705314645123]
    parse_timestamp_resolution [of utc zero_time_raw]
  by (simp add: first_parsed_second_field first_parsed_no_fields lookups)

text \<open>
  C8. Example 1 of the specification: the \<^verbatim>\<open>event_time\<close> of
  \<^verbatim>\<open>{"event_time":"2024-01-15 10:30:45.123456","user_id":"u1","event_type":"login"}\<close>
  is a UTC time, and the normalized event is to be
  \<^verbatim>\<open>{"user_id":"u1","event_type":"login","time":1705314645123}\<close>. The code does not read
  the string as UTC: \<^verbatim>\<open>parse_timestamp\<close> calls \<^verbatim>\<open>timestamp()\<close> on the naive \<^verbatim>\<open>datetime\<close>
  that \<^verbatim>\<open>strptime\<close> returns, which takes it for local time of the process. The expected
  event comes out where local time is UTC; in a process one hour east of Greenwich the
  same input gets a \<^verbatim>\<open>time\<close> that is 3600000 milliseconds too early.
\<close>

theorem example1_read_as_local_time:
  "convert_event utc example1_raw = Inr (Some example1_normalized)
   \<and> convert_event (fixed_offset 3600) example1_raw = Inr (Some example1_one_hour_east)
   \<and> example1_one_hour_east \<noteq> example1_normalized"
  by (simp add: convert_event_def parse_timestamp_example1 copy_fields_example1
      example1_one_hour_east_def example1_normalized_def dict_get_def py_simps)

end
